theory Spec2Isabelle
  imports Main "HOL-Library.Word"
begin

section \<open>Machine integers, errors and the dense vector library\<close>

text \<open>
  The header \<^verbatim>\<open>drake/systems/n_ary_state.h\<close> computes with \<^verbatim>\<open>std::size_t\<close>
  (unsigned, read with \<open>unat\<close>) and \<^verbatim>\<open>std::ptrdiff_t\<close> (two's complement, read
  with \<open>sint\<close>); both are 64 bits wide.  A conversion between the two keeps the bit
  pattern, so both are the same word type and only the reading differs.
\<close>

type_synonym size_t = "64 word"
type_synonym ptrdiff_t = "64 word"

text \<open>
  The exceptions of the class, with the text given to their constructors.  \<open>AssertFailed\<close>
  is a failing \<^verbatim>\<open>assert\<close> of the class itself; \<open>EigenFailure\<close> is an operation of the
  dense vector library called outside its contract (a row count that is negative when
  read as \<^verbatim>\<open>Eigen::Index\<close>, a block that leaves the vector, an assignment between
  different sizes).
\<close>

datatype error =
    DomainError string
  | OutOfRange string
  | AssertFailed
  | EigenFailure

text \<open>
  A column vector \<^verbatim>\<open>Eigen::Matrix<ScalarType, Dynamic, 1>\<close> is the list of its
  coefficients; \<^verbatim>\<open>ScalarType\<close> is the type variable.  Its row count is an
  \<^verbatim>\<open>Eigen::Index\<close> (a \<^verbatim>\<open>std::ptrdiff_t\<close>), so a vector has fewer than \<open>2 ^ 63\<close> rows.
\<close>

type_synonym 'a EigenType = "'a list"

definition eigen_vector :: "'a EigenType \<Rightarrow> bool" where
  "eigen_vector v \<longleftrightarrow> length v < 2 ^ 63"

definition rows :: "'a EigenType \<Rightarrow> size_t" where
  "rows v = of_nat (length v)"

text \<open>\<^verbatim>\<open>EigenType::Constant(n, 1, c)\<close>, the row count \<open>n\<close> passed as a \<^verbatim>\<open>std::size_t\<close>.\<close>

definition Constant :: "size_t \<Rightarrow> 'a \<Rightarrow> error + 'a EigenType" where
  "Constant n c =
     (if 0 \<le> sint n then Inr (replicate (unat n) c) else Inl EigenFailure)"

text \<open>
  \<^verbatim>\<open>v.conservativeResize(n, Eigen::NoChange)\<close>: the leading rows are kept; rows that are
  new are not initialised, and \<open>junk\<close> stands for what they hold.
\<close>

definition conservativeResize :: "'a \<Rightarrow> 'a EigenType \<Rightarrow> size_t \<Rightarrow> error + 'a EigenType" where
  "conservativeResize junk v n =
     (if 0 \<le> sint n
      then Inr (take (unat n) v @ replicate (unat n - length v) junk)
      else Inl EigenFailure)"

text \<open>\<^verbatim>\<open>v.bottomRows(n) = u\<close>.\<close>

definition bottomRows_assign :: "'a EigenType \<Rightarrow> size_t \<Rightarrow> 'a EigenType \<Rightarrow> error + 'a EigenType" where
  "bottomRows_assign v n u =
     (if unat n \<le> length v \<and> length u = unat n
      then Inr (take (length v - unat n) v @ u)
      else Inl EigenFailure)"

text \<open>\<^verbatim>\<open>v.block(row0, 0, n, 1)\<close> read, and \<^verbatim>\<open>v.block(row0, 0, n, 1) = u\<close>.\<close>

definition block :: "'a EigenType \<Rightarrow> size_t \<Rightarrow> size_t \<Rightarrow> error + 'a EigenType" where
  "block v row0 n =
     (if unat row0 + unat n \<le> length v
      then Inr (take (unat n) (drop (unat row0) v))
      else Inl EigenFailure)"

definition block_assign :: "'a EigenType \<Rightarrow> size_t \<Rightarrow> size_t \<Rightarrow> 'a EigenType \<Rightarrow> error + 'a EigenType" where
  "block_assign v row0 n u =
     (if unat row0 + unat n \<le> length v \<and> length u = unat n
      then Inr (take (unat row0) v @ u @ drop (unat row0 + unat n) v)
      else Inl EigenFailure)"

text \<open>
  A \<^verbatim>\<open>UnitVector<ScalarType>\<close> is taken as the list of its coefficients: \<^verbatim>\<open>toEigen(unit)\<close>
  is that list and \<^verbatim>\<open>UnitVector<ScalarType>(block)\<close> is the block.  Every value of the type
  has \<^verbatim>\<open>unit_size()\<close> coefficients, the parameter \<open>us\<close> of the functions below.
\<close>

type_synonym 'a UnitVector = "'a list"

definition unit_vector :: "size_t \<Rightarrow> 'a UnitVector \<Rightarrow> bool" where
  "unit_vector us u \<longleftrightarrow> length u = unat us \<and> eigen_vector u"

section \<open>The class NAryState\<close>

record 'a NAryState =
  unit_size_m :: size_t
  count_m :: ptrdiff_t
  combined_vector_m :: "'a EigenType"

subsection \<open>The static functions\<close>

definition unitCountFromRows :: "size_t \<Rightarrow> size_t \<Rightarrow> error + ptrdiff_t" where
  "unitCountFromRows us rws =
     (if us > 0 then
        (if rws mod us \<noteq> 0
         then Inl (DomainError ''Row count not a multiple of non-null unit.'')
         else Inr (rws div us))
      else Inr (- 1))"

definition rowsFromUnitCount :: "size_t \<Rightarrow> ptrdiff_t \<Rightarrow> error + size_t" where
  "rowsFromUnitCount us cnt =
     (if 0 \<le> sint cnt then Inr (cnt * us)
      else if us \<noteq> 0
      then Inl (DomainError ''Negative count for non-null unit.'')
      else Inr 0)"

subsection \<open>Constructors\<close>

text \<open>
  A constructor that throws builds no object.  The member initialisers run in the order
  of the member declarations: \<^verbatim>\<open>unit_size_\<close>, \<^verbatim>\<open>count_\<close>, \<^verbatim>\<open>combined_vector_\<close>.
\<close>

definition NAryState_default :: "size_t \<Rightarrow> error + 'a NAryState" where
  "NAryState_default us =
     (case unitCountFromRows us 0 of
        Inl e \<Rightarrow> Inl e
      | Inr c \<Rightarrow> Inr \<lparr>unit_size_m = us, count_m = c, combined_vector_m = []\<rparr>)"

definition NAryState_sized :: "size_t \<Rightarrow> 'a \<Rightarrow> ptrdiff_t \<Rightarrow> error + 'a NAryState" where
  "NAryState_sized us nan cnt =
     (case rowsFromUnitCount us cnt of
        Inl e \<Rightarrow> Inl e
      | Inr r \<Rightarrow>
     (case unitCountFromRows us r of
        Inl e \<Rightarrow> Inl e
      | Inr c \<Rightarrow>
     (case rowsFromUnitCount us cnt of
        Inl e \<Rightarrow> Inl e
      | Inr r' \<Rightarrow>
     (case Constant r' nan of
        Inl e \<Rightarrow> Inl e
      | Inr v \<Rightarrow> Inr \<lparr>unit_size_m = us, count_m = c, combined_vector_m = v\<rparr>))))"

definition NAryState_from :: "size_t \<Rightarrow> 'a EigenType \<Rightarrow> error + 'a NAryState" where
  "NAryState_from us initial =
     (case unitCountFromRows us (rows initial) of
        Inl e \<Rightarrow> Inl e
      | Inr c \<Rightarrow> Inr \<lparr>unit_size_m = us, count_m = c, combined_vector_m = initial\<rparr>)"

subsection \<open>Member functions\<close>

text \<open>
  A member function that changes the object returns the exception it throws, if any,
  and the object as it is when the function is left.
\<close>

definition count :: "'a NAryState \<Rightarrow> ptrdiff_t" where
  "count s = count_m s"

definition append_unit :: "'a \<Rightarrow> 'a UnitVector \<Rightarrow> 'a NAryState \<Rightarrow> error option \<times> 'a NAryState" where
  "append_unit junk u s =
     (if unit_size_m s = 0 then
        (if count_m s = - 1 then (None, s) else (Some AssertFailed, s))
      else
        (case conservativeResize junk (combined_vector_m s)
                (rows (combined_vector_m s) + unit_size_m s) of
           Inl e \<Rightarrow> (Some e, s)
         | Inr v1 \<Rightarrow>
        (case bottomRows_assign v1 (unit_size_m s) u of
           Inl e \<Rightarrow> (Some e, s\<lparr>combined_vector_m := v1\<rparr>)
         | Inr v2 \<Rightarrow> (None, s\<lparr>combined_vector_m := v2, count_m := count_m s + 1\<rparr>))))"

definition get :: "'a NAryState \<Rightarrow> size_t \<Rightarrow> error + 'a UnitVector" where
  "get s i =
     (if \<not> (unit_size_m s = 0 \<or> i < count_m s)
      then Inl (OutOfRange ''Index i exceeds unit count().'')
      else let row0 = i * unit_size_m s
           in block (combined_vector_m s) row0 (unit_size_m s))"

definition set_unit :: "size_t \<Rightarrow> 'a UnitVector \<Rightarrow> 'a NAryState \<Rightarrow> error option \<times> 'a NAryState" where
  "set_unit i u s =
     (if \<not> (unit_size_m s = 0 \<or> i < count_m s)
      then (Some (OutOfRange ''Index i exceeds unit count().''), s)
      else let row0 = i * unit_size_m s
           in (case block_assign (combined_vector_m s) row0 (unit_size_m s) u of
                 Inl e \<Rightarrow> (Some e, s)
               | Inr v \<Rightarrow> (None, s\<lparr>combined_vector_m := v\<rparr>)))"

text \<open>\<^verbatim>\<open>operator=\<close>; the static \<^verbatim>\<open>unitCountFromRows\<close> asks the type for \<^verbatim>\<open>unit_size()\<close>.\<close>

definition assign :: "size_t \<Rightarrow> 'a EigenType \<Rightarrow> 'a NAryState \<Rightarrow> error option \<times> 'a NAryState" where
  "assign us rhs s =
     (case unitCountFromRows us (rows rhs) of
        Inl e \<Rightarrow> (Some e, s)
      | Inr c \<Rightarrow> (None, (s\<lparr>count_m := c\<rparr>)\<lparr>combined_vector_m := rhs\<rparr>))"

definition size_rows :: "'a NAryState \<Rightarrow> size_t" where
  "size_rows s = rows (combined_vector_m s)"

definition toEigen :: "'a NAryState \<Rightarrow> 'a EigenType" where
  "toEigen s = combined_vector_m s"

subsection \<open>Objects that a program can hold\<close>

text \<open>
  The objects reached from a constructor by member functions, for an instantiation with
  \<^verbatim>\<open>unit_size()\<close> \<open>= us\<close> and \<^verbatim>\<open>NAN\<close> \<open>= nan\<close>.  Every vector handed in is a vector of the
  library and every unit is a value of the unit type.  An object is still there after
  a member function has thrown, so the object left by a throwing call is reached too.
\<close>

inductive reachable :: "size_t \<Rightarrow> 'a \<Rightarrow> 'a NAryState \<Rightarrow> bool" for us :: size_t and nan :: 'a where
  r_default: "NAryState_default us = Inr s \<Longrightarrow> reachable us nan s"
| r_sized: "NAryState_sized us nan cnt = Inr s \<Longrightarrow> reachable us nan s"
| r_from: "eigen_vector initial \<Longrightarrow> NAryState_from us initial = Inr s \<Longrightarrow> reachable us nan s"
| r_append: "reachable us nan s \<Longrightarrow> unit_vector us u \<Longrightarrow> append_unit junk u s = (r, s')
     \<Longrightarrow> reachable us nan s'"
| r_set: "reachable us nan s \<Longrightarrow> unit_vector us u \<Longrightarrow> set_unit i u s = (r, s')
     \<Longrightarrow> reachable us nan s'"
| r_assign: "reachable us nan s \<Longrightarrow> eigen_vector rhs \<Longrightarrow> assign us rhs s = (r, s')
     \<Longrightarrow> reachable us nan s'"

text \<open>
  The representation invariant: the cached unit size is that of the type, and the count
  is \<open>-1\<close> for a null unit and the number of stored units otherwise.
\<close>

definition wellformed :: "size_t \<Rightarrow> 'a NAryState \<Rightarrow> bool" where
  "wellformed us s \<longleftrightarrow>
     unit_size_m s = us \<and> eigen_vector (combined_vector_m s) \<and>
     (if us = 0 then count_m s = - 1
      else 0 \<le> sint (count_m s) \<and>
           int (length (combined_vector_m s)) = sint (count_m s) * uint us)"

subsection \<open>Scalars for worked examples\<close>

text \<open>
  Everything above is generic in \<^verbatim>\<open>ScalarType\<close>.  The worked examples below use a scalar
  type that has a not-a-number value beside its numbers.
\<close>

datatype scalar = NaN | Num int

section \<open>Reading words as numbers, and the representation invariant\<close>

lemma sint_cases:
  "sint (w :: 64 word) = (if uint w < 2 ^ 63 then uint w else uint w - 2 ^ 64)"
proof -
  have b: "0 \<le> uint w" "uint w < 2 ^ 64"
    using uint_lt2p [of w] by simp_all
  have "sint w = (uint w + 2 ^ 63) mod 2 ^ 64 - 2 ^ 63"
    using int_word_sint [of "uint w", where 'a = 64] by simp
  moreover have "uint w < 2 ^ 63 \<Longrightarrow> (uint w + 2 ^ 63) mod 2 ^ 64 = uint w + 2 ^ 63"
    using b by (intro mod_pos_pos_trivial) simp_all
  moreover have "\<not> uint w < 2 ^ 63 \<Longrightarrow> (uint w + 2 ^ 63) mod 2 ^ 64 = uint w + 2 ^ 63 - 2 ^ 64"
  proof -
    assume "\<not> uint w < 2 ^ 63"
    then have "(uint w + 2 ^ 63 - 2 ^ 64) mod 2 ^ 64 = uint w + 2 ^ 63 - 2 ^ 64"
      using b by (intro mod_pos_pos_trivial) simp_all
    moreover have "(uint w + 2 ^ 63 - 2 ^ 64) mod 2 ^ 64 = (uint w + 2 ^ 63) mod 2 ^ 64"
      by (metis minus_mod_self2)
    ultimately show ?thesis by simp
  qed
  ultimately show ?thesis by simp
qed

lemma uint_unat_less: "uint (w :: 64 word) < 2 ^ 63 \<longleftrightarrow> unat w < 2 ^ 63"
proof -
  have "uint w < 2 ^ 63 \<longleftrightarrow> int (unat w) < int (2 ^ 63)" by simp
  also have "\<dots> \<longleftrightarrow> unat w < 2 ^ 63" by (rule of_nat_less_iff)
  finally show ?thesis .
qed

lemma sint_nonneg_iff: "0 \<le> sint (w :: 64 word) \<longleftrightarrow> unat w < 2 ^ 63"
  using uint_lt2p [of w] uint_unat_less [of w] by (simp add: sint_cases)

lemma sint_eq_unat: "0 \<le> sint (w :: 64 word) \<Longrightarrow> sint w = int (unat w)"
  using uint_lt2p [of w] by (simp add: sint_cases split: if_splits)

lemma unat_rows: "eigen_vector v \<Longrightarrow> unat (rows v) = length v"
  by (simp add: eigen_vector_def rows_def unat_of_nat)


lemma wellformed_nat:
  "wellformed us s \<longleftrightarrow>
     unit_size_m s = us \<and> length (combined_vector_m s) < 2 ^ 63 \<and>
     (if us = 0 then count_m s = - 1
      else unat (count_m s) < 2 ^ 63 \<and>
           length (combined_vector_m s) = unat (count_m s) * unat us)"
proof -
  have "int (length (combined_vector_m s)) = sint (count_m s) * uint us \<longleftrightarrow>
        length (combined_vector_m s) = unat (count_m s) * unat us"
    if "0 \<le> sint (count_m s)"
  proof -
    have "sint (count_m s) * uint us = int (unat (count_m s) * unat us)"
      using sint_eq_unat [OF that] by simp
    then show ?thesis by (simp only: of_nat_eq_iff)
  qed
  then show ?thesis
    unfolding wellformed_def eigen_vector_def sint_nonneg_iff [symmetric] by auto
qed

lemma exact_div_unat:
  fixes r us :: "64 word"
  assumes "r mod us = 0"
  shows "unat r = unat (r div us) * unat us"
proof -
  have "unat r mod unat us = 0"
    using assms by (metis unat_mod unat_0)
  then show ?thesis
    using div_mult_mod_eq [of "unat r" "unat us"] by (simp add: unat_div)
qed

lemma unitCount_wellformed:
  assumes "unitCountFromRows us (rows v) = Inr c" and "eigen_vector v"
  shows "wellformed us \<lparr>unit_size_m = us, count_m = c, combined_vector_m = v\<rparr>"
proof (cases "us = 0")
  case True
  with assms show ?thesis
    by (simp add: wellformed_nat unitCountFromRows_def eigen_vector_def)
next
  case False
  then have pos: "0 < us" by (simp add: word_greater_zero_iff)
  from assms pos have m: "rows v mod us = 0" and c: "c = rows v div us"
    by (auto simp: unitCountFromRows_def split: if_splits)
  have len: "length v = unat c * unat us"
    using exact_div_unat [OF m] unat_rows [OF assms(2)] c by simp
  have "0 < unat us" using pos by (simp add: word_less_nat_alt)
  then have "unat c \<le> length v" using len by simp
  then have "unat c < 2 ^ 63" using assms(2) by (simp add: eigen_vector_def)
  with len False assms(2) show ?thesis
    by (simp add: wellformed_nat eigen_vector_def)
qed


lemma default_wellformed:
  assumes "NAryState_default us = Inr s"
  shows "wellformed us s"
proof -
  have "rows ([] :: 'a list) = 0" by (simp add: rows_def)
  with assms obtain c where c: "unitCountFromRows us (rows ([] :: 'a list)) = Inr c"
    and s: "s = \<lparr>unit_size_m = us, count_m = c, combined_vector_m = []\<rparr>"
    by (auto simp: NAryState_default_def split: sum.splits)
  have "eigen_vector ([] :: 'a list)" by (simp add: eigen_vector_def)
  then show ?thesis
    unfolding s by (rule unitCount_wellformed [OF c])
qed

lemma Constant_Inr:
  assumes "Constant n c = Inr v"
  shows "v = replicate (unat n) c" and "eigen_vector v" and "rows v = n"
proof -
  from assms have n: "0 \<le> sint n" and v: "v = replicate (unat n) c"
    by (auto simp: Constant_def split: if_splits)
  from n have "unat n < 2 ^ 63" by (simp add: sint_nonneg_iff)
  with v show "v = replicate (unat n) c" and "eigen_vector v" and "rows v = n"
    by (simp_all add: eigen_vector_def rows_def)
qed

lemma sized_Inr:
  assumes "NAryState_sized us nan cnt = Inr s"
  obtains r c v where "rowsFromUnitCount us cnt = Inr r" "unitCountFromRows us r = Inr c"
    "Constant r nan = Inr v" "s = \<lparr>unit_size_m = us, count_m = c, combined_vector_m = v\<rparr>"
  using assms by (auto simp: NAryState_sized_def split: sum.splits)

lemma sized_wellformed:
  assumes "NAryState_sized us nan cnt = Inr s"
  shows "wellformed us s"
proof -
  from assms obtain r c v where c: "unitCountFromRows us r = Inr c"
    and v: "Constant r nan = Inr v"
    and s: "s = \<lparr>unit_size_m = us, count_m = c, combined_vector_m = v\<rparr>"
    by (rule sized_Inr)
  note ev = Constant_Inr(2) [OF v] and r = Constant_Inr(3) [OF v]
  from c r have "unitCountFromRows us (rows v) = Inr c" by simp
  then show ?thesis
    unfolding s using ev by (rule unitCount_wellformed)
qed

lemma from_wellformed:
  assumes "NAryState_from us initial = Inr s" and "eigen_vector initial"
  shows "wellformed us s"
proof -
  from assms(1) obtain c where c: "unitCountFromRows us (rows initial) = Inr c"
    and s: "s = \<lparr>unit_size_m = us, count_m = c, combined_vector_m = initial\<rparr>"
    by (auto simp: NAryState_from_def split: sum.splits)
  show ?thesis unfolding s by (rule unitCount_wellformed [OF c assms(2)])
qed

lemma assign_wellformed:
  assumes "assign us rhs s = (r, s')" and "wellformed us s" and "eigen_vector rhs"
  shows "wellformed us s'"
proof (cases "unitCountFromRows us (rows rhs)")
  case (Inl e)
  with assms(1) have "s' = s" by (simp add: assign_def)
  with assms(2) show ?thesis by simp
next
  case (Inr c)
  with assms(1) have "s' = s\<lparr>count_m := c, combined_vector_m := rhs\<rparr>"
    by (simp add: assign_def)
  moreover have "unit_size_m s = us" using assms(2) by (simp add: wellformed_def)
  ultimately have "s' = \<lparr>unit_size_m = us, count_m = c, combined_vector_m = rhs\<rparr>"
    by simp
  then show ?thesis using unitCount_wellformed [OF Inr assms(3)] by simp
qed

lemma block_assign_length:
  "block_assign v row0 n u = Inr v' \<Longrightarrow> length v' = length v"
  by (auto simp: block_assign_def split: if_splits)

lemma set_wellformed:
  assumes "set_unit i u s = (r, s')" and "wellformed us s"
  shows "wellformed us s'"
proof -
  have "s' = s \<or> (\<exists>v. s' = s\<lparr>combined_vector_m := v\<rparr> \<and> length v = length (combined_vector_m s))"
    using assms(1) by (auto simp: set_unit_def Let_def split: if_splits sum.splits dest: block_assign_length)
  then show ?thesis using assms(2) by (auto simp: wellformed_def eigen_vector_def)
qed


lemma rows_plus_unit:
  assumes "eigen_vector v" and "unit_vector us u"
  shows "unat (rows v + us) = length v + unat us"
proof -
  have "length v < 2 ^ 63" "unat us < 2 ^ 63"
    using assms by (simp_all add: eigen_vector_def unit_vector_def)
  then have "unat (rows v) + unat us < 2 ^ 64"
    using unat_rows [OF assms(1)] by simp
  then have "unat (rows v + us) = unat (rows v) + unat us"
    using unat_add_lem [of "rows v" us] by simp
  then show ?thesis using unat_rows [OF assms(1)] by simp
qed

lemma append_result:
  assumes wf: "wellformed us s" and u: "unit_vector us u" and nz: "us \<noteq> 0"
  shows "append_unit junk u s =
     (if length (combined_vector_m s) + unat us < 2 ^ 63
      then (None, s\<lparr>combined_vector_m := combined_vector_m s @ u, count_m := count_m s + 1\<rparr>)
      else (Some EigenFailure, s))"
proof -
  let ?v = "combined_vector_m s"
  have us: "unit_size_m s = us" and ev: "eigen_vector ?v"
    using wf by (simp_all add: wellformed_def)
  have n: "unat (rows ?v + us) = length ?v + unat us"
    by (rule rows_plus_unit [OF ev u])
  have lu: "length u = unat us" using u by (simp add: unit_vector_def)
  show ?thesis
  proof (cases "length ?v + unat us < 2 ^ 63")
    case True
    then have "0 \<le> sint (rows ?v + us)" using n by (simp add: sint_nonneg_iff)
    then have r: "conservativeResize junk ?v (rows ?v + us) = Inr (?v @ replicate (unat us) junk)"
      using n by (simp add: conservativeResize_def)
    have b: "bottomRows_assign (?v @ replicate (unat us) junk) us u = Inr (?v @ u)"
      using lu by (simp add: bottomRows_assign_def)
    show ?thesis using True nz us r b by (simp add: append_unit_def)
  next
    case False
    then have "\<not> 0 \<le> sint (rows ?v + us)" using n by (simp add: sint_nonneg_iff)
    then have "conservativeResize junk ?v (rows ?v + us) = Inl EigenFailure"
      by (simp add: conservativeResize_def)
    then show ?thesis using False nz us by (simp add: append_unit_def)
  qed
qed

lemma count_succ:
  assumes wf: "wellformed us s" and nz: "us \<noteq> 0"
    and fit: "length (combined_vector_m s) + unat us < 2 ^ 63"
  shows "unat (count_m s + 1) = unat (count_m s) + 1" and "unat (count_m s) + 1 < 2 ^ 63"
proof -
  have len: "length (combined_vector_m s) = unat (count_m s) * unat us"
    using wf nz by (simp add: wellformed_nat)
  have "0 < unat us" using nz by (simp add: unat_gt_0)
  then have "unat (count_m s) \<le> unat (count_m s) * unat us" by simp
  then have "unat (count_m s) + 1 \<le> length (combined_vector_m s) + unat us"
    using len \<open>0 < unat us\<close> by linarith
  then show lt: "unat (count_m s) + 1 < 2 ^ 63" using fit by simp
  then have "unat (count_m s) + unat (1 :: 64 word) < 2 ^ 64" by simp
  then show "unat (count_m s + 1) = unat (count_m s) + 1"
    using unat_add_lem [of "count_m s" 1] by simp
qed



lemma append_wellformed:
  assumes "append_unit junk u s = (r, s')" and wf: "wellformed us s" and u: "unit_vector us u"
  shows "wellformed us s'"
proof (cases "us = 0")
  case True
  then have "unit_size_m s = 0" using wf by (simp add: wellformed_def)
  then have "s' = s" using assms(1) by (auto simp: append_unit_def split: if_splits)
  then show ?thesis using wf by simp
next
  case False
  show ?thesis
  proof (cases "length (combined_vector_m s) + unat us < 2 ^ 63")
    case fit: True
    then have s': "s' = s\<lparr>combined_vector_m := combined_vector_m s @ u, count_m := count_m s + 1\<rparr>"
      using append_result [OF wf u False, of junk] assms(1) by simp
    have lu: "length u = unat us" using u by (simp add: unit_vector_def)
    have len: "length (combined_vector_m s) = unat (count_m s) * unat us"
      and us: "unit_size_m s = us"
      using wf False by (simp_all add: wellformed_nat)
    note c = count_succ [OF wf False fit]
    have 1: "length (combined_vector_m s') < 2 ^ 63"
      unfolding s' using fit lu by simp
    have 2: "unat (count_m s') < 2 ^ 63"
      unfolding s' using c by simp
    have 3: "length (combined_vector_m s') = unat (count_m s') * unat us"
      unfolding s' using c(1) len lu by simp
    have 4: "unit_size_m s' = us"
      unfolding s' using us by simp
    show ?thesis
      unfolding wellformed_nat using False 1 2 3 4 by simp
  next
    case False
    then have "s' = s" using append_result [OF wf u \<open>us \<noteq> 0\<close>, of junk] assms(1) by simp
    then show ?thesis using wf by simp
  qed
qed


lemma reachable_wellformed: "reachable us nan s \<Longrightarrow> wellformed us s"
proof (induction rule: reachable.induct)
  case (r_default s)
  then show ?case by (rule default_wellformed)
next
  case (r_sized cnt s)
  then show ?case by (rule sized_wellformed)
next
  case (r_from initial s)
  from r_from(2) r_from(1) show ?case by (rule from_wellformed)
next
  case (r_append s u junk r s')
  from r_append(3) r_append(4) r_append(2) show ?case by (rule append_wellformed)
next
  case (r_set s u i r s')
  from r_set(3) r_set(4) show ?case by (rule set_wellformed)
next
  case (r_assign s rhs r s')
  from r_assign(3) r_assign(4) r_assign(2) show ?case by (rule assign_wellformed)
qed

lemma wellformed_size_rows:
  assumes "wellformed us s" and "us \<noteq> 0"
  shows "size_rows s = count_m s * us"
proof -
  have "length (combined_vector_m s) = unat (count_m s) * unat us"
    using assms by (simp add: wellformed_nat)
  then have "size_rows s = of_nat (unat (count_m s) * unat us)"
    by (simp add: size_rows_def rows_def)
  then show ?thesis by simp
qed

subsection \<open>A small object: two units of three rows\<close>

lemma example_unit: "unit_vector 3 [Num 1, Num 2, Num 3]"
  by (simp add: unit_vector_def eigen_vector_def)

lemma example_default:
  "NAryState_default 3 = Inr \<lparr>unit_size_m = 3, count_m = 0, combined_vector_m = ([] :: scalar list)\<rparr>"
  by (simp add: NAryState_default_def unitCountFromRows_def)

lemma example_append_1:
  "append_unit j [Num 1, Num 2, Num 3] \<lparr>unit_size_m = 3, count_m = 0, combined_vector_m = []\<rparr>
   = (None, \<lparr>unit_size_m = 3, count_m = 1, combined_vector_m = [Num 1, Num 2, Num 3]\<rparr>)"
  by (simp add: append_unit_def conservativeResize_def bottomRows_assign_def rows_def)

lemma example_reachable_1:
  "reachable 3 NaN \<lparr>unit_size_m = 3, count_m = 1, combined_vector_m = [Num 1, Num 2, Num 3]\<rparr>"
  by (rule r_append [OF r_default [OF example_default] example_unit example_append_1])

lemma example_unit_2: "unit_vector 3 [Num 4, Num 5, Num 6]"
  by (simp add: unit_vector_def eigen_vector_def)

lemma example_append_2:
  "append_unit j [Num 4, Num 5, Num 6]
     \<lparr>unit_size_m = 3, count_m = 1, combined_vector_m = [Num 1, Num 2, Num 3]\<rparr>
   = (None, \<lparr>unit_size_m = 3, count_m = 2,
        combined_vector_m = [Num 1, Num 2, Num 3, Num 4, Num 5, Num 6]\<rparr>)"
  by (simp add: append_unit_def conservativeResize_def bottomRows_assign_def rows_def)

lemma example_reachable_2:
  "reachable 3 NaN \<lparr>unit_size_m = 3, count_m = 2,
     combined_vector_m = [Num 1, Num 2, Num 3, Num 4, Num 5, Num 6]\<rparr>"
  by (rule r_append [OF example_reachable_1 example_unit_2 example_append_2])

lemma example_null_default:
  "NAryState_default 0 = Inr \<lparr>unit_size_m = 0, count_m = - 1, combined_vector_m = ([] :: scalar list)\<rparr>"
  by (simp add: NAryState_default_def unitCountFromRows_def)

lemma example_null_reachable:
  "reachable 0 NaN \<lparr>unit_size_m = 0, count_m = - 1, combined_vector_m = []\<rparr>"
  by (rule r_default [OF example_null_default])

section \<open>The row/count codec\<close>

lemma word_mod_eq_0_uint:
  fixes a b :: "64 word"
  shows "a mod b = 0 \<longleftrightarrow> uint a mod uint b = 0"
proof -
  have "uint (a mod b) = uint a mod uint b" by (rule uint_mod)
  then show ?thesis by (metis uint_0_iff)
qed

lemma uint_product:
  fixes a b :: "64 word"
  shows "uint (a * b) = (uint a * uint b) mod 2 ^ 64"
  using uint_word_ariths(3) [of a b] by simp

text \<open>
  Claim C3, as the code has it.  \<^verbatim>\<open>unitCountFromRows(rows)\<close>, for a positive unit size
  that divides \<open>rows\<close>, returns the quotient converted to \<^verbatim>\<open>std::ptrdiff_t\<close>: the number
  \<open>rows / unit_size\<close> when that is below \<open>2 ^ 63\<close>, and \<open>2 ^ 64\<close> less otherwise.  It
  throws a domain error when the unit size is positive and does not divide \<open>rows\<close>, and
  returns \<open>-1\<close> for every \<open>rows\<close> when the unit size is zero.
  \<^verbatim>\<open>rowsFromUnitCount(count)\<close>, for \<open>count \<ge> 0\<close>, returns the \<^verbatim>\<open>std::size_t\<close> product, the
  number \<open>count * unit_size\<close> reduced modulo \<open>2 ^ 64\<close>, which is \<open>count * unit_size\<close>
  itself when that is below \<open>2 ^ 64\<close>.  It returns \<open>0\<close> for a negative count when the unit
  size is zero, and throws a domain error for a negative count when the unit size is
  positive.
\<close>

theorem C3_row_count_codec:
  "(0 < us \<and> uint rws mod uint us = 0 \<longrightarrow>
      unitCountFromRows us rws = Inr (rws div us) \<and>
      sint (rws div us) =
        (if uint rws div uint us < 2 ^ 63 then uint rws div uint us
         else uint rws div uint us - 2 ^ 64)) \<and>
   (0 < us \<and> uint rws mod uint us \<noteq> 0 \<longrightarrow>
      unitCountFromRows us rws = Inl (DomainError ''Row count not a multiple of non-null unit.'')) \<and>
   (unitCountFromRows 0 rws = Inr (- 1) \<and> sint (- 1 :: ptrdiff_t) = - 1) \<and>
   (0 \<le> sint cnt \<longrightarrow>
      rowsFromUnitCount us cnt = Inr (cnt * us) \<and>
      uint (cnt * us) = (sint cnt * uint us) mod 2 ^ 64) \<and>
   (0 \<le> sint cnt \<and> sint cnt * uint us < 2 ^ 64 \<longrightarrow>
      rowsFromUnitCount us cnt = Inr (cnt * us) \<and> uint (cnt * us) = sint cnt * uint us) \<and>
   (sint cnt < 0 \<longrightarrow> rowsFromUnitCount 0 cnt = Inr 0) \<and>
   (sint cnt < 0 \<and> 0 < us \<longrightarrow>
      rowsFromUnitCount us cnt = Inl (DomainError ''Negative count for non-null unit.''))"
proof -
  have a: "unitCountFromRows us rws = Inr (rws div us) \<and>
      sint (rws div us) =
        (if uint rws div uint us < 2 ^ 63 then uint rws div uint us
         else uint rws div uint us - 2 ^ 64)"
    if "0 < us" and "uint rws mod uint us = 0"
  proof -
    have "rws mod us = 0" using that(2) by (simp add: word_mod_eq_0_uint)
    then have "unitCountFromRows us rws = Inr (rws div us)"
      using that(1) by (simp add: unitCountFromRows_def)
    moreover have "uint (rws div us) = uint rws div uint us" by (rule uint_div)
    ultimately show ?thesis using sint_cases [of "rws div us"] by simp
  qed
  have b: "unitCountFromRows us rws = Inl (DomainError ''Row count not a multiple of non-null unit.'')"
    if "0 < us" and "uint rws mod uint us \<noteq> 0"
  proof -
    have "rws mod us \<noteq> 0" using that(2) by (simp add: word_mod_eq_0_uint)
    then show ?thesis using that(1) by (simp add: unitCountFromRows_def)
  qed
  have c: "unitCountFromRows 0 rws = Inr (- 1) \<and> sint (- 1 :: ptrdiff_t) = - 1"
    by (simp add: unitCountFromRows_def)
  have d: "rowsFromUnitCount us cnt = Inr (cnt * us) \<and>
      uint (cnt * us) = (sint cnt * uint us) mod 2 ^ 64"
    if "0 \<le> sint cnt"
  proof -
    have "sint cnt = uint cnt" using sint_eq_unat [OF that] by simp
    then show ?thesis using that uint_product [of cnt us] by (simp add: rowsFromUnitCount_def)
  qed
  have d': "rowsFromUnitCount us cnt = Inr (cnt * us) \<and> uint (cnt * us) = sint cnt * uint us"
    if "0 \<le> sint cnt" and "sint cnt * uint us < 2 ^ 64"
  proof -
    have "0 \<le> sint cnt * uint us" using that(1) by simp
    then have "(sint cnt * uint us) mod 2 ^ 64 = sint cnt * uint us"
      using that(2) by (intro mod_pos_pos_trivial)
    then show ?thesis using d [OF that(1)] by simp
  qed
  have e: "rowsFromUnitCount 0 cnt = Inr 0" if "sint cnt < 0"
    using that by (simp add: rowsFromUnitCount_def)
  have f: "rowsFromUnitCount us cnt = Inl (DomainError ''Negative count for non-null unit.'')"
    if "sint cnt < 0" and "0 < us"
    using that by (auto simp: rowsFromUnitCount_def)
  have A: "0 < us \<and> uint rws mod uint us = 0 \<longrightarrow>
      unitCountFromRows us rws = Inr (rws div us) \<and>
      sint (rws div us) =
        (if uint rws div uint us < 2 ^ 63 then uint rws div uint us
         else uint rws div uint us - 2 ^ 64)"
    by (rule impI, elim conjE, rule a)
  have B: "0 < us \<and> uint rws mod uint us \<noteq> 0 \<longrightarrow>
      unitCountFromRows us rws = Inl (DomainError ''Row count not a multiple of non-null unit.'')"
    by (rule impI, elim conjE, rule b)
  have D: "0 \<le> sint cnt \<longrightarrow>
      rowsFromUnitCount us cnt = Inr (cnt * us) \<and>
      uint (cnt * us) = (sint cnt * uint us) mod 2 ^ 64"
    by (rule impI, rule d)
  have D': "0 \<le> sint cnt \<and> sint cnt * uint us < 2 ^ 64 \<longrightarrow>
      rowsFromUnitCount us cnt = Inr (cnt * us) \<and> uint (cnt * us) = sint cnt * uint us"
    by (rule impI, elim conjE, rule d')
  have E: "sint cnt < 0 \<longrightarrow> rowsFromUnitCount 0 cnt = Inr 0"
    by (rule impI, rule e)
  have F: "sint cnt < 0 \<and> 0 < us \<longrightarrow>
      rowsFromUnitCount us cnt = Inl (DomainError ''Negative count for non-null unit.'')"
    by (rule impI, elim conjE, rule f)
  show ?thesis
    by (intro conjI) (rule A B D D' E F conjunct1 [OF c] conjunct2 [OF c])+
qed

theorem C3_row_count_codec_witness:
  "(0 :: size_t) < 3 \<and> uint (6 :: size_t) mod uint (3 :: size_t) = 0 \<and>
   unitCountFromRows 3 6 = Inr 2 \<and> sint (6 div 3 :: ptrdiff_t) = 2 \<and>
   (0 :: size_t) < 2 \<and> uint (7 :: size_t) mod uint (2 :: size_t) \<noteq> 0 \<and>
   unitCountFromRows 2 7 = Inl (DomainError ''Row count not a multiple of non-null unit.'') \<and>
   unitCountFromRows 0 7 = Inr (- 1) \<and>
   0 \<le> sint (2 :: ptrdiff_t) \<and> sint (2 :: ptrdiff_t) * uint (3 :: size_t) < 2 ^ 64 \<and>
   rowsFromUnitCount 3 2 = Inr 6 \<and> uint (2 * 3 :: size_t) = 6 \<and>
   sint (- 5 :: ptrdiff_t) < 0 \<and>
   rowsFromUnitCount 0 (- 5) = Inr 0 \<and>
   rowsFromUnitCount 2 (- 5) = Inl (DomainError ''Negative count for non-null unit.'')"
  using C3_row_count_codec [of 3 6 2] C3_row_count_codec [of 2 7 "- 5"]
  by simp

text \<open>
  Read as numbers, the unrestricted statement fails in both directions: for a unit size
  of four and a count of \<open>2 ^ 62\<close> the product wraps around and \<^verbatim>\<open>rowsFromUnitCount\<close>
  returns \<open>0\<close>; for a unit size of one and \<open>2 ^ 63\<close> rows \<^verbatim>\<open>unitCountFromRows\<close> returns
  the negative number \<open>- (2 ^ 63)\<close>.
\<close>

theorem C3_row_count_codec_counterexample:
  "0 \<le> sint (2 ^ 62 :: ptrdiff_t) \<and>
   rowsFromUnitCount 4 (2 ^ 62) = Inr 0 \<and>
   uint (0 :: size_t) \<noteq> sint (2 ^ 62 :: ptrdiff_t) * uint (4 :: size_t) \<and>
   (0 :: size_t) < 1 \<and> uint (2 ^ 63 :: size_t) mod uint (1 :: size_t) = 0 \<and>
   unitCountFromRows 1 (2 ^ 63) = Inr (2 ^ 63) \<and>
   sint (2 ^ 63 :: ptrdiff_t) \<noteq> uint (2 ^ 63 :: size_t) div uint (1 :: size_t)"
  by (simp add: rowsFromUnitCount_def unitCountFromRows_def)

section \<open>The representation invariant holds for every object\<close>

text \<open>
  Claim C1.  For a unit size greater than zero, after any sequence of public operations
  (default construction, sized construction, construction from a flat vector, append,
  set, assignment from a flat vector) the length of the storage is \<open>count() * unit_size\<close>
  and \<open>count() \<ge> 0\<close>.  The first conjunct reads both numbers as integers; the last is
  the same equation between \<^verbatim>\<open>size()\<close> and the \<^verbatim>\<open>std::size_t\<close> product.
\<close>

theorem C1_length_invariant:
  assumes "reachable us nan s" and "0 < us"
  shows "int (length (toEigen s)) = sint (count s) * uint us \<and> 0 \<le> sint (count s) \<and>
         size_rows s = count s * us"
proof -
  have wf: "wellformed us s" using assms(1) by (rule reachable_wellformed)
  have nz: "us \<noteq> 0" using assms(2) by auto
  from wf nz have "int (length (toEigen s)) = sint (count s) * uint us" "0 \<le> sint (count s)"
    by (simp_all add: wellformed_def toEigen_def count_def)
  moreover have "size_rows s = count s * us"
    using wellformed_size_rows [OF wf nz] by (simp add: count_def)
  ultimately show ?thesis by simp
qed

theorem C1_length_invariant_witness:
  "reachable 3 NaN \<lparr>unit_size_m = 3, count_m = 1, combined_vector_m = [Num 1, Num 2, Num 3]\<rparr> \<and>
   (0 :: size_t) < 3 \<and>
   int (length (toEigen \<lparr>unit_size_m = 3, count_m = 1, combined_vector_m = [Num 1, Num 2, Num 3]\<rparr>)) =
     sint (count \<lparr>unit_size_m = 3, count_m = 1, combined_vector_m = [Num 1, Num 2, Num 3]\<rparr>) * uint (3 :: size_t) \<and>
   0 \<le> sint (count \<lparr>unit_size_m = 3, count_m = 1, combined_vector_m = [Num 1, Num 2, Num 3]\<rparr>) \<and>
   size_rows \<lparr>unit_size_m = 3, count_m = 1, combined_vector_m = [Num 1, Num 2, Num 3]\<rparr> = 3"
  using example_reachable_1 C1_length_invariant [OF example_reachable_1]
  by (simp add: count_def)

section \<open>The null unit\<close>

text \<open>
  Claim C7.  For a unit size of zero \<open>count()\<close> is \<open>-1\<close> at all times: after every
  construction (default, sized with any requested count, from any flat vector), after
  an assignment from any flat vector, and after any sequence of operations; and
  \<^verbatim>\<open>append(unit)\<close> returns normally and leaves the whole object as it was.
\<close>

theorem C7_null_unit:
  "(reachable 0 nan s \<longrightarrow> count s = - 1 \<and> sint (count s) = - 1 \<and> append_unit junk u s = (None, s)) \<and>
   NAryState_default 0 = Inr \<lparr>unit_size_m = 0, count_m = - 1, combined_vector_m = ([] :: 'a list)\<rparr> \<and>
   NAryState_sized 0 nan cnt = Inr \<lparr>unit_size_m = 0, count_m = - 1, combined_vector_m = []\<rparr> \<and>
   NAryState_from 0 v = Inr \<lparr>unit_size_m = 0, count_m = - 1, combined_vector_m = v\<rparr> \<and>
   assign 0 v t = (None, t\<lparr>count_m := - 1, combined_vector_m := v\<rparr>)"
proof -
  have "count s = - 1 \<and> sint (count s) = - 1 \<and> append_unit junk u s = (None, s)"
    if "reachable 0 nan s"
  proof -
    have "wellformed 0 s" using that by (rule reachable_wellformed)
    then have "unit_size_m s = 0" "count_m s = - 1" by (simp_all add: wellformed_def)
    then show ?thesis by (simp add: count_def append_unit_def)
  qed
  moreover have "NAryState_default 0 = Inr \<lparr>unit_size_m = 0, count_m = - 1, combined_vector_m = ([] :: 'a list)\<rparr>"
    by (simp add: NAryState_default_def unitCountFromRows_def)
  moreover have "NAryState_sized 0 nan cnt = Inr \<lparr>unit_size_m = 0, count_m = - 1, combined_vector_m = []\<rparr>"
    by (simp add: NAryState_sized_def rowsFromUnitCount_def unitCountFromRows_def Constant_def)
  moreover have "NAryState_from 0 v = Inr \<lparr>unit_size_m = 0, count_m = - 1, combined_vector_m = v\<rparr>"
    by (simp add: NAryState_from_def unitCountFromRows_def)
  moreover have "assign 0 v t = (None, t\<lparr>count_m := - 1, combined_vector_m := v\<rparr>)"
    by (simp add: assign_def unitCountFromRows_def)
  ultimately show ?thesis by blast
qed

theorem C7_null_unit_witness:
  "reachable 0 NaN \<lparr>unit_size_m = 0, count_m = - 1, combined_vector_m = []\<rparr> \<and>
   count \<lparr>unit_size_m = 0, count_m = - 1, combined_vector_m = ([] :: scalar list)\<rparr> = - 1 \<and>
   append_unit NaN [] \<lparr>unit_size_m = 0, count_m = - 1, combined_vector_m = []\<rparr> =
     (None, \<lparr>unit_size_m = 0, count_m = - 1, combined_vector_m = []\<rparr>)"
proof -
  show ?thesis
    using example_null_reachable C7_null_unit [of NaN "\<lparr>unit_size_m = 0, count_m = - 1, combined_vector_m = []\<rparr>" NaN "[]"]
    by blast
qed

section \<open>Assignment from a flat vector\<close>

lemma rows_mod_eq_0:
  assumes "eigen_vector v"
  shows "rows v mod us = 0 \<longleftrightarrow> length v mod unat us = 0"
proof -
  have "unat (rows v mod us) = length v mod unat us"
    using unat_rows [OF assms] by (simp add: unat_mod)
  then show ?thesis by (metis unat_eq_0)
qed

lemma rows_div_reading:
  assumes "eigen_vector v"
  shows "unat (rows v div us) = length v div unat us"
    and "sint (rows v div us) = int (length v div unat us)"
proof -
  show u: "unat (rows v div us) = length v div unat us"
    using unat_rows [OF assms] by (simp add: unat_div)
  have "length v div unat us \<le> length v" by (rule div_le_dividend)
  moreover have "length v < 2 ^ 63" using assms by (simp add: eigen_vector_def)
  ultimately have "length v div unat us < 2 ^ 63" by (rule le_less_trans)
  then have "unat (rows v div us) < 2 ^ 63"
    using u by simp
  then have "0 \<le> sint (rows v div us)" by (simp add: sint_nonneg_iff)
  then show "sint (rows v div us) = int (length v div unat us)"
    using sint_eq_unat [of "rows v div us"] u by simp
qed

text \<open>
  Claim C9.  For a positive unit size, assigning a flat vector whose length is not a
  multiple of the unit size throws the domain error and changes nothing: the object left
  behind is the object before the call, count and stored vector included.  When the
  length is a multiple, the call returns normally, the storage is the supplied vector
  and \<open>count()\<close> is its length divided by the unit size.
\<close>

theorem C9_assign_validates_first:
  assumes "0 < us" and "eigen_vector rhs"
  shows "(length rhs mod unat us \<noteq> 0 \<longrightarrow>
            assign us rhs s = (Some (DomainError ''Row count not a multiple of non-null unit.''), s)) \<and>
         (length rhs mod unat us = 0 \<longrightarrow>
            fst (assign us rhs s) = None \<and>
            toEigen (snd (assign us rhs s)) = rhs \<and>
            sint (count (snd (assign us rhs s))) = int (length rhs div unat us) \<and>
            unit_size_m (snd (assign us rhs s)) = unit_size_m s)"
proof (cases "length rhs mod unat us = 0")
  case True
  then have "rows rhs mod us = 0" using rows_mod_eq_0 [OF assms(2)] by simp
  then have "assign us rhs s = (None, s\<lparr>count_m := rows rhs div us, combined_vector_m := rhs\<rparr>)"
    using assms(1) by (simp add: assign_def unitCountFromRows_def)
  then show ?thesis
    using True rows_div_reading(2) [OF assms(2), of us] by (simp add: toEigen_def count_def)
next
  case False
  then have "rows rhs mod us \<noteq> 0" using rows_mod_eq_0 [OF assms(2)] by simp
  then have "assign us rhs s = (Some (DomainError ''Row count not a multiple of non-null unit.''), s)"
    using assms(1) by (simp add: assign_def unitCountFromRows_def)
  then show ?thesis using False by simp
qed

theorem C9_assign_validates_first_witness:
  "(0 :: size_t) < 2 \<and> eigen_vector [Num 1, Num 2, Num 3, Num 4, Num 5, Num 6, Num 7] \<and> eigen_vector [Num 8, Num 9] \<and>
   assign 2 [Num 1, Num 2, Num 3, Num 4, Num 5, Num 6, Num 7] \<lparr>unit_size_m = 2, count_m = 1, combined_vector_m = [Num 0, Num 0]\<rparr> =
     (Some (DomainError ''Row count not a multiple of non-null unit.''),
      \<lparr>unit_size_m = 2, count_m = 1, combined_vector_m = [Num 0, Num 0]\<rparr>) \<and>
   toEigen (snd (assign 2 [Num 8, Num 9] \<lparr>unit_size_m = 2, count_m = 1, combined_vector_m = [Num 0, Num 0]\<rparr>)) = [Num 8, Num 9] \<and>
   sint (count (snd (assign 2 [Num 8, Num 9] \<lparr>unit_size_m = 2, count_m = 1, combined_vector_m = [Num 0, Num 0]\<rparr>))) = 1"
proof -
  have p: "(0 :: size_t) < 2" by simp
  have e7: "eigen_vector [Num 1, Num 2, Num 3, Num 4, Num 5, Num 6, Num 7]" and e2: "eigen_vector [Num 8, Num 9]"
    by (simp_all add: eigen_vector_def)
  show ?thesis
    using p e7 e2
      C9_assign_validates_first [OF p e7, of "\<lparr>unit_size_m = 2, count_m = 1, combined_vector_m = [Num 0, Num 0]\<rparr>"]
      C9_assign_validates_first [OF p e2, of "\<lparr>unit_size_m = 2, count_m = 1, combined_vector_m = [Num 0, Num 0]\<rparr>"]
    by simp
qed

section \<open>The bound check of get and set\<close>

lemma index_check:
  assumes "wellformed us s" and "us \<noteq> 0"
  shows "i < count_m s \<longleftrightarrow> uint i < sint (count_m s)"
proof -
  have "0 \<le> sint (count_m s)" using assms by (simp add: wellformed_def)
  then have "sint (count_m s) = uint (count_m s)"
    using sint_eq_unat [of "count_m s"] by simp
  then show ?thesis by (simp add: word_less_def)
qed

lemma get_OutOfRange:
  "(\<exists>m. get s i = Inl (OutOfRange m)) \<longleftrightarrow> \<not> (unit_size_m s = 0 \<or> i < count_m s)"
  by (auto simp: get_def block_def Let_def split: if_splits)

lemma set_OutOfRange:
  "(\<exists>m. fst (set_unit i u s) = Some (OutOfRange m)) \<longleftrightarrow> \<not> (unit_size_m s = 0 \<or> i < count_m s)"
  by (auto simp: set_unit_def block_assign_def Let_def split: if_splits)

text \<open>
  Claim C6.  For a positive unit size \<^verbatim>\<open>get(i)\<close> and \<^verbatim>\<open>set(i, unit)\<close> throw
  \<^verbatim>\<open>std::out_of_range\<close> exactly when \<open>i \<ge> count()\<close>; for a unit size of zero the check is
  skipped and neither throws it, whatever the index.
\<close>

theorem C6_out_of_range:
  "(reachable us nan s \<and> 0 < us \<longrightarrow>
      ((\<exists>m. get s i = Inl (OutOfRange m)) \<longleftrightarrow> sint (count s) \<le> uint i) \<and>
      ((\<exists>m. fst (set_unit i u s) = Some (OutOfRange m)) \<longleftrightarrow> sint (count s) \<le> uint i)) \<and>
   (reachable 0 nan s \<longrightarrow>
      get s i \<noteq> Inl (OutOfRange m) \<and> fst (set_unit i u s) \<noteq> Some (OutOfRange m))"
proof -
  have "((\<exists>m. get s i = Inl (OutOfRange m)) \<longleftrightarrow> sint (count s) \<le> uint i) \<and>
        ((\<exists>m. fst (set_unit i u s) = Some (OutOfRange m)) \<longleftrightarrow> sint (count s) \<le> uint i)"
    if r: "reachable us nan s" and p: "0 < us"
  proof -
    have wf: "wellformed us s" using r by (rule reachable_wellformed)
    have nz: "us \<noteq> 0" using p by auto
    have "unit_size_m s \<noteq> 0" using wf nz by (simp add: wellformed_def)
    then show ?thesis
      unfolding get_OutOfRange set_OutOfRange count_def
      using index_check [OF wf nz, of i] by auto
  qed
  moreover have "get s i \<noteq> Inl (OutOfRange m) \<and> fst (set_unit i u s) \<noteq> Some (OutOfRange m)"
    if r: "reachable 0 nan s"
  proof -
    have "wellformed 0 s" using r by (rule reachable_wellformed)
    then have "unit_size_m s = 0" by (simp add: wellformed_def)
    then show ?thesis using get_OutOfRange [of s i] set_OutOfRange [of i u s] by blast
  qed
  ultimately show ?thesis by blast
qed

theorem C6_out_of_range_witness:
  "reachable 3 NaN \<lparr>unit_size_m = 3, count_m = 1, combined_vector_m = [Num 1, Num 2, Num 3]\<rparr> \<and>
   (0 :: size_t) < 3 \<and>
   get \<lparr>unit_size_m = 3, count_m = 1, combined_vector_m = [Num 1, Num 2, Num 3]\<rparr> 1 =
     Inl (OutOfRange ''Index i exceeds unit count().'') \<and>
   sint (count \<lparr>unit_size_m = 3, count_m = 1, combined_vector_m = [Num 1, Num 2, Num 3]\<rparr>) \<le> uint (1 :: size_t) \<and>
   reachable 0 NaN \<lparr>unit_size_m = 0, count_m = - 1, combined_vector_m = []\<rparr> \<and>
   get \<lparr>unit_size_m = 0, count_m = - 1, combined_vector_m = ([] :: scalar list)\<rparr> 7 \<noteq>
     Inl (OutOfRange ''Index i exceeds unit count().'')"
proof -
  have p: "(0 :: size_t) < 3" by simp
  have g: "get \<lparr>unit_size_m = 3, count_m = 1, combined_vector_m = [Num 1, Num 2, Num 3]\<rparr> 1 =
      Inl (OutOfRange ''Index i exceeds unit count().'')"
    by (simp add: get_def)
  show ?thesis
    using p g example_reachable_1 example_null_reachable
      C6_out_of_range [of 3 NaN "\<lparr>unit_size_m = 3, count_m = 1, combined_vector_m = [Num 1, Num 2, Num 3]\<rparr>" 1 "[]"]
      C6_out_of_range [of 0 NaN "\<lparr>unit_size_m = 0, count_m = - 1, combined_vector_m = []\<rparr>" 7 "[]"
        "''Index i exceeds unit count().''"]
    by blast
qed

section \<open>Reading and writing one unit\<close>

lemma block_index:
  assumes wf: "wellformed us s" and nz: "us \<noteq> 0" and i: "i < count_m s"
  shows "unat (i * us) = unat i * unat us"
    and "unat i * unat us + unat us \<le> length (combined_vector_m s)"
proof -
  have len: "length (combined_vector_m s) = unat (count_m s) * unat us"
    and small: "length (combined_vector_m s) < 2 ^ 63"
    using wf nz by (simp_all add: wellformed_nat)
  have "Suc (unat i) \<le> unat (count_m s)" using i by (simp add: word_less_nat_alt)
  then have "Suc (unat i) * unat us \<le> unat (count_m s) * unat us" by (rule mult_le_mono1)
  then show le: "unat i * unat us + unat us \<le> length (combined_vector_m s)"
    using len by simp
  then have "unat i * unat us < 2 ^ 63" using small by linarith
  then have "unat i * unat us < 2 ^ LENGTH(64)" by simp
  then show "unat (i * us) = unat i * unat us"
    using unat_mult_lem [of i us] by blast
qed

lemma get_result:
  assumes wf: "wellformed us s" and nz: "us \<noteq> 0" and i: "i < count_m s"
  shows "get s i = Inr (take (unat us) (drop (unat i * unat us) (combined_vector_m s)))"
proof -
  have us: "unit_size_m s = us" using wf by (simp add: wellformed_def)
  show ?thesis
    using block_index [OF wf nz i] nz i
    by (simp add: get_def block_def us)
qed

lemma set_result:
  assumes wf: "wellformed us s" and nz: "us \<noteq> 0" and i: "i < count_m s"
    and u: "unit_vector us u"
  shows "set_unit i u s = (None, s\<lparr>combined_vector_m :=
     take (unat i * unat us) (combined_vector_m s) @ u @
     drop (unat i * unat us + unat us) (combined_vector_m s)\<rparr>)"
proof -
  have us: "unit_size_m s = us" using wf by (simp add: wellformed_def)
  have lu: "length u = unat us" using u by (simp add: unit_vector_def)
  show ?thesis
    using block_index [OF wf nz i] nz i lu
    by (simp add: set_unit_def block_assign_def us)
qed

lemma get_null: "unit_size_m s = 0 \<Longrightarrow> get s i = Inr []"
  by (simp add: get_def block_def)

lemma set_null: "unit_size_m s = 0 \<Longrightarrow> length u = 0 \<Longrightarrow> set_unit i u s = (None, s)"
  by (simp add: set_unit_def block_assign_def)

text \<open>
  Claim C10.  Every block that \<^verbatim>\<open>get(i)\<close> and \<^verbatim>\<open>set(i, unit)\<close> touch lies inside the
  storage, so the library is never called outside its contract.  For a positive unit
  size and an index that passes the check, the first row \<open>i * unit_size\<close> does not wrap
  around and the block ends at or before \<^verbatim>\<open>size()\<close>; for a unit size of zero the block
  starts at row \<open>0\<close> and has no rows, whatever the index.
\<close>

theorem C10_block_within_storage:
  assumes "reachable us nan s"
  shows "get s i \<noteq> Inl EigenFailure \<and>
         (unit_vector us u \<longrightarrow> fst (set_unit i u s) \<noteq> Some EigenFailure) \<and>
         (0 < us \<and> i < count s \<longrightarrow>
            unat (i * unit_size_m s) = unat i * unat us \<and>
            unat (i * unit_size_m s) + unat (unit_size_m s) \<le> unat (size_rows s)) \<and>
         (us = 0 \<longrightarrow> i * unit_size_m s = 0 \<and> unit_size_m s = 0)"
proof -
  have wf: "wellformed us s" using assms by (rule reachable_wellformed)
  then have us: "unit_size_m s = us" and ev: "eigen_vector (combined_vector_m s)"
    by (simp_all add: wellformed_def)
  show ?thesis
  proof (cases "us = 0")
    case True
    then have "get s i = Inr []" using us get_null by simp
    moreover have "set_unit i u s = (None, s)" if "unit_vector us u"
      using that True us set_null [of s u i] by (simp add: unit_vector_def)
    ultimately show ?thesis using True us by auto
  next
    case False
    show ?thesis
    proof (cases "i < count_m s")
      case True
      note b = block_index [OF wf False True]
      have "get s i \<noteq> Inl EigenFailure" using get_result [OF wf False True] by simp
      moreover have "fst (set_unit i u s) \<noteq> Some EigenFailure" if "unit_vector us u"
        using set_result [OF wf False True that] by simp
      moreover have "unat (size_rows s) = length (combined_vector_m s)"
        using unat_rows [OF ev] by (simp add: size_rows_def)
      ultimately show ?thesis using b us False by (simp add: count_def)
    next
      case False
      then have "get s i = Inl (OutOfRange ''Index i exceeds unit count().'')"
        and "fst (set_unit i u s) = Some (OutOfRange ''Index i exceeds unit count().'')"
        using \<open>us \<noteq> 0\<close> us by (simp_all add: get_def set_unit_def)
      then show ?thesis using False \<open>us \<noteq> 0\<close> by (simp add: count_def)
    qed
  qed
qed

theorem C10_block_within_storage_witness:
  "reachable 3 NaN \<lparr>unit_size_m = 3, count_m = 1, combined_vector_m = [Num 1, Num 2, Num 3]\<rparr> \<and>
   unit_vector 3 [Num 1, Num 2, Num 3] \<and> (0 :: size_t) < 3 \<and>
   (0 :: size_t) < count \<lparr>unit_size_m = 3, count_m = 1, combined_vector_m = [Num 1, Num 2, Num 3]\<rparr> \<and>
   get \<lparr>unit_size_m = 3, count_m = 1, combined_vector_m = [Num 1, Num 2, Num 3]\<rparr> 0 \<noteq> Inl EigenFailure \<and>
   fst (set_unit 0 [Num 1, Num 2, Num 3] \<lparr>unit_size_m = 3, count_m = 1, combined_vector_m = [Num 1, Num 2, Num 3]\<rparr>)
     \<noteq> Some EigenFailure \<and>
   unat ((0 :: size_t) * 3) + unat (3 :: size_t) \<le>
     unat (size_rows \<lparr>unit_size_m = 3, count_m = 1, combined_vector_m = [Num 1, Num 2, Num 3]\<rparr>) \<and>
   reachable 0 NaN \<lparr>unit_size_m = 0, count_m = - 1, combined_vector_m = []\<rparr> \<and>
   get \<lparr>unit_size_m = 0, count_m = - 1, combined_vector_m = ([] :: scalar list)\<rparr> 7 \<noteq> Inl EigenFailure"
proof -
  have p: "(0 :: size_t) < 3"
    and c: "(0 :: size_t) < count \<lparr>unit_size_m = 3, count_m = 1, combined_vector_m = [Num 1, Num 2, Num 3]\<rparr>"
    by (simp_all add: count_def)
  show ?thesis
    using p c example_unit example_reachable_1 example_null_reachable
      C10_block_within_storage [OF example_reachable_1, of 0 "[Num 1, Num 2, Num 3]"]
      C10_block_within_storage [OF example_null_reachable, of 7 "[]"]
    by simp
qed

lemma block_after_write_same:
  assumes "a + length u \<le> length v"
  shows "take (length u) (drop a (take a v @ u @ drop (a + length u) v)) = u"
  using assms by simp

lemma block_after_write_other:
  assumes "a + n \<le> length v" and "length u = n" and "b + n \<le> a \<or> a + n \<le> b"
  shows "take n (drop b (take a v @ u @ drop (a + n) v)) = take n (drop b v)"
proof -
  from assms(3) show ?thesis
  proof
    assume l: "b + n \<le> a"
    then have "take n (drop b (take a v @ u @ drop (a + n) v)) = take n (drop b (take a v))"
      using assms(1) by simp
    also have "\<dots> = take n (drop b v)"
      using l by (simp add: drop_take min_def)
    finally show ?thesis .
  next
    assume r: "a + n \<le> b"
    have "drop b (take a v @ u @ drop (a + n) v) = drop (b - a - n) (drop (a + n) v)"
      using r assms(1,2) by simp
    also have "\<dots> = drop b v" using r by simp
    finally show ?thesis by simp
  qed
qed


lemma blocks_disjoint:
  fixes i j n :: nat
  assumes "i \<noteq> j"
  shows "j * n + n \<le> i * n \<or> i * n + n \<le> j * n"
proof (cases "j < i")
  case True
  then have "Suc j * n \<le> i * n" by (intro mult_le_mono1) simp
  then show ?thesis by simp
next
  case False
  then have "Suc i * n \<le> j * n" using assms by (intro mult_le_mono1) simp
  then show ?thesis by simp
qed

text \<open>
  Claim C5.  For a valid index \<open>i\<close> (\<open>i < count()\<close> when the unit size is positive, any
  index when it is zero) and a unit \<open>v\<close>, \<^verbatim>\<open>set(i, v)\<close> returns normally, a following
  \<^verbatim>\<open>get(i)\<close> gives \<open>v\<close>, \<^verbatim>\<open>get(j)\<close> gives what it gave before for every other valid index
  \<open>j\<close>, and \<open>count()\<close> is unchanged.
\<close>

theorem C5_set_then_get:
  assumes r: "reachable us nan s" and u: "unit_vector us u"
    and i: "us = 0 \<or> uint i < sint (count s)"
  shows "fst (set_unit i u s) = None \<and>
         get (snd (set_unit i u s)) i = Inr u \<and>
         (\<forall>j. (us = 0 \<or> uint j < sint (count s)) \<and> j \<noteq> i \<longrightarrow>
            get (snd (set_unit i u s)) j = get s j) \<and>
         count (snd (set_unit i u s)) = count s"
proof -
  have wf: "wellformed us s" using r by (rule reachable_wellformed)
  have lu: "length u = unat us" using u by (simp add: unit_vector_def)
  show ?thesis
  proof (cases "us = 0")
    case True
    then have z: "unit_size_m s = 0" using wf by (simp add: wellformed_def)
    have "set_unit i u s = (None, s)" using set_null [OF z] lu True by simp
    moreover have "get s i = Inr u" using get_null [OF z] lu True by simp
    ultimately show ?thesis by simp
  next
    case nz: False
    let ?v = "combined_vector_m s"
    let ?n = "unat us"
    let ?a = "unat i * ?n"
    let ?v' = "take ?a ?v @ u @ drop (?a + ?n) ?v"
    let ?s' = "s\<lparr>combined_vector_m := ?v'\<rparr>"
    have ic: "i < count_m s" using i nz index_check [OF wf nz, of i] by (simp add: count_def)
    have set: "set_unit i u s = (None, ?s')" by (rule set_result [OF wf nz ic u])
    then have wf': "wellformed us ?s'" using set_wellformed [OF _ wf] by blast
    have fit: "?a + ?n \<le> length ?v" by (rule block_index(2) [OF wf nz ic])
    have "get ?s' i = Inr (take ?n (drop ?a ?v'))"
      using get_result [OF wf' nz, of i] ic by simp
    also have "take ?n (drop ?a ?v') = u"
      using block_after_write_same [of ?a u ?v] fit lu by simp
    finally have same: "get ?s' i = Inr u" .
    have other: "get ?s' j = get s j" if j: "uint j < sint (count s)" and ne: "j \<noteq> i" for j
    proof -
      have jc: "j < count_m s" using j index_check [OF wf nz, of j] by (simp add: count_def)
      have "unat i \<noteq> unat j" using ne by (simp add: word_unat_eq_iff)
      then have d: "unat j * ?n + ?n \<le> ?a \<or> ?a + ?n \<le> unat j * ?n"
        by (rule blocks_disjoint)
      have "get ?s' j = Inr (take ?n (drop (unat j * ?n) ?v'))"
        using get_result [OF wf' nz, of j] jc by simp
      also have "take ?n (drop (unat j * ?n) ?v') = take ?n (drop (unat j * ?n) ?v)"
        by (rule block_after_write_other [OF fit lu d])
      also have "Inr \<dots> = get s j" using get_result [OF wf nz jc] by simp
      finally show ?thesis .
    qed
    show ?thesis using set same other nz by (simp add: count_def)
  qed
qed

theorem C5_set_then_get_witness:
  "reachable 3 NaN \<lparr>unit_size_m = 3, count_m = 2,
     combined_vector_m = [Num 1, Num 2, Num 3, Num 4, Num 5, Num 6]\<rparr> \<and>
   unit_vector 3 [Num 7, Num 8, Num 9] \<and>
   uint (0 :: size_t) < sint (count \<lparr>unit_size_m = 3, count_m = 2,
     combined_vector_m = [Num 1, Num 2, Num 3, Num 4, Num 5, Num 6]\<rparr>) \<and>
   uint (1 :: size_t) < sint (count \<lparr>unit_size_m = 3, count_m = 2,
     combined_vector_m = [Num 1, Num 2, Num 3, Num 4, Num 5, Num 6]\<rparr>) \<and>
   (1 :: size_t) \<noteq> 0 \<and>
   set_unit 0 [Num 7, Num 8, Num 9] \<lparr>unit_size_m = 3, count_m = 2,
     combined_vector_m = [Num 1, Num 2, Num 3, Num 4, Num 5, Num 6]\<rparr> =
     (None, \<lparr>unit_size_m = 3, count_m = 2,
        combined_vector_m = [Num 7, Num 8, Num 9, Num 4, Num 5, Num 6]\<rparr>) \<and>
   get (snd (set_unit 0 [Num 7, Num 8, Num 9] \<lparr>unit_size_m = 3, count_m = 2,
     combined_vector_m = [Num 1, Num 2, Num 3, Num 4, Num 5, Num 6]\<rparr>)) 0 = Inr [Num 7, Num 8, Num 9] \<and>
   get (snd (set_unit 0 [Num 7, Num 8, Num 9] \<lparr>unit_size_m = 3, count_m = 2,
     combined_vector_m = [Num 1, Num 2, Num 3, Num 4, Num 5, Num 6]\<rparr>)) 1 =
   get \<lparr>unit_size_m = 3, count_m = 2,
     combined_vector_m = [Num 1, Num 2, Num 3, Num 4, Num 5, Num 6]\<rparr> 1"
proof -
  have u: "unit_vector 3 [Num 7, Num 8, Num 9]" by (simp add: unit_vector_def eigen_vector_def)
  have i: "(3 :: size_t) = 0 \<or>
      uint (0 :: size_t) < sint (count \<lparr>unit_size_m = 3, count_m = 2,
        combined_vector_m = [Num 1, Num 2, Num 3, Num 4, Num 5, Num 6]\<rparr>)"
    and j: "uint (1 :: size_t) < sint (count \<lparr>unit_size_m = 3, count_m = 2,
        combined_vector_m = [Num 1, Num 2, Num 3, Num 4, Num 5, Num 6]\<rparr>)"
    by (simp_all add: count_def)
  have e: "set_unit 0 [Num 7, Num 8, Num 9] \<lparr>unit_size_m = 3, count_m = 2,
     combined_vector_m = [Num 1, Num 2, Num 3, Num 4, Num 5, Num 6]\<rparr> =
     (None, \<lparr>unit_size_m = 3, count_m = 2,
        combined_vector_m = [Num 7, Num 8, Num 9, Num 4, Num 5, Num 6]\<rparr>)"
    by (simp add: set_unit_def block_assign_def)
  have z: "(1 :: size_t) \<noteq> 0" by simp
  show ?thesis
    using u i j e z example_reachable_2 C5_set_then_get [OF example_reachable_2 u i]
    by simp
qed

section \<open>Appending a unit\<close>

text \<open>
  Claim C4.  For a positive unit size and a unit \<open>v\<close>, \<^verbatim>\<open>append(v)\<close> makes the storage
  longer by \<open>unit_size\<close> rows, keeps the rows that were there, writes \<open>v\<close> into the new
  rows at the end and adds exactly one to \<open>count()\<close>; a following \<^verbatim>\<open>get(count() - 1)\<close>
  gives \<open>v\<close>.  The enlarged vector has to be one the library can hold.
\<close>

theorem C4_append_then_get:
  assumes r: "reachable us nan s" and p: "0 < us" and u: "unit_vector us u"
    and fit: "length (toEigen s) + unat us < 2 ^ 63"
  shows "fst (append_unit junk u s) = None \<and>
         toEigen (snd (append_unit junk u s)) = toEigen s @ u \<and>
         size_rows (snd (append_unit junk u s)) = size_rows s + us \<and>
         count (snd (append_unit junk u s)) = count s + 1 \<and>
         sint (count (snd (append_unit junk u s))) = sint (count s) + 1 \<and>
         get (snd (append_unit junk u s)) (count (snd (append_unit junk u s)) - 1) = Inr u"
proof -
  let ?v = "combined_vector_m s"
  let ?s' = "s\<lparr>combined_vector_m := ?v @ u, count_m := count_m s + 1\<rparr>"
  have wf: "wellformed us s" using r by (rule reachable_wellformed)
  have nz: "us \<noteq> 0" using p by auto
  have fit': "length ?v + unat us < 2 ^ 63" using fit by (simp add: toEigen_def)
  have lu: "length u = unat us" using u by (simp add: unit_vector_def)
  have len: "length ?v = unat (count_m s) * unat us" using wf nz by (simp add: wellformed_nat)
  have app: "append_unit junk u s = (None, ?s')"
    using append_result [OF wf u nz, of junk] fit' by simp
  then have wf': "wellformed us ?s'" using append_wellformed [OF _ wf u] by blast
  note c = count_succ [OF wf nz fit']
  have size: "size_rows ?s' = size_rows s + us"
    using lu by (simp add: size_rows_def rows_def)
  have "0 \<le> sint (count_m s)" "0 \<le> sint (count_m s + 1)"
    using wf wf' nz by (simp_all add: wellformed_def)
  then have cnt: "sint (count_m s + 1) = sint (count_m s) + 1"
    using sint_eq_unat [of "count_m s"] sint_eq_unat [of "count_m s + 1"] c(1) by simp
  have last: "count_m s < count_m s + 1"
    using c(1) by (simp add: word_less_nat_alt)
  have "get ?s' (count_m s) = Inr (take (unat us) (drop (unat (count_m s) * unat us) (?v @ u)))"
    using get_result [OF wf' nz, of "count_m s"] last by simp
  also have "take (unat us) (drop (unat (count_m s) * unat us) (?v @ u)) = u"
    using len lu by simp
  finally have "get ?s' (count_m s) = Inr u" .
  then show ?thesis using app size cnt by (simp add: toEigen_def count_def)
qed

theorem C4_append_then_get_witness:
  "reachable 3 NaN \<lparr>unit_size_m = 3, count_m = 1, combined_vector_m = [Num 1, Num 2, Num 3]\<rparr> \<and>
   (0 :: size_t) < 3 \<and> unit_vector 3 [Num 4, Num 5, Num 6] \<and>
   length (toEigen \<lparr>unit_size_m = 3, count_m = 1, combined_vector_m = [Num 1, Num 2, Num 3]\<rparr>)
     + unat (3 :: size_t) < 2 ^ 63 \<and>
   toEigen (snd (append_unit NaN [Num 4, Num 5, Num 6]
     \<lparr>unit_size_m = 3, count_m = 1, combined_vector_m = [Num 1, Num 2, Num 3]\<rparr>)) =
     [Num 1, Num 2, Num 3, Num 4, Num 5, Num 6] \<and>
   count (snd (append_unit NaN [Num 4, Num 5, Num 6]
     \<lparr>unit_size_m = 3, count_m = 1, combined_vector_m = [Num 1, Num 2, Num 3]\<rparr>)) = 2 \<and>
   get (snd (append_unit NaN [Num 4, Num 5, Num 6]
     \<lparr>unit_size_m = 3, count_m = 1, combined_vector_m = [Num 1, Num 2, Num 3]\<rparr>)) 1 =
     Inr [Num 4, Num 5, Num 6]"
proof -
  have p: "(0 :: size_t) < 3" by simp
  have fit: "length (toEigen \<lparr>unit_size_m = 3, count_m = 1, combined_vector_m = [Num 1, Num 2, Num 3]\<rparr>)
     + unat (3 :: size_t) < 2 ^ 63"
    by (simp add: toEigen_def)
  show ?thesis
    using p fit example_unit_2 example_reachable_1
      C4_append_then_get [OF example_reachable_1 p example_unit_2 fit, of NaN]
    by (simp add: example_append_2 toEigen_def count_def)
qed

section \<open>Flattening\<close>

lemma concat_blocks:
  "n * m \<le> length v \<Longrightarrow>
   concat (map (\<lambda>k. take m (drop (k * m) v)) [0..<n]) = take (n * m) v"
proof (induction n)
  case 0
  then show ?case by simp
next
  case (Suc n)
  then have "n * m \<le> length v" by simp
  then have "concat (map (\<lambda>k. take m (drop (k * m) v)) [0..<n]) = take (n * m) v"
    by (rule Suc.IH)
  then have "concat (map (\<lambda>k. take m (drop (k * m) v)) [0..<Suc n]) =
      take (n * m) v @ take m (drop (n * m) v)"
    by simp
  also have "\<dots> = take (n * m + m) v" by (simp add: take_add)
  finally show ?case by (simp add: add.commute)
qed

lemma get_of_nat:
  assumes wf: "wellformed us s" and nz: "us \<noteq> 0" and k: "k < unat (count_m s)"
  shows "get s (of_nat k) = Inr (take (unat us) (drop (k * unat us) (combined_vector_m s)))"
proof -
  have "unat (count_m s) < 2 ^ 64" using unsigned_less [of "count_m s"] by simp
  then have "k < 2 ^ 64" using k by linarith
  then have uk: "unat (of_nat k :: size_t) = k" by (simp add: unat_of_nat)
  then have "(of_nat k :: size_t) < count_m s" using k by (simp add: word_less_nat_alt)
  then show ?thesis using get_result [OF wf nz] uk by simp
qed

lemma units_concat:
  assumes wf: "wellformed us s" and nz: "us \<noteq> 0"
  shows "map (\<lambda>k. get s (of_nat k)) [0..<nat (sint (count_m s))] =
           map Inr (map (\<lambda>k. take (unat us) (drop (k * unat us) (combined_vector_m s)))
                      [0..<unat (count_m s)])"
    and "concat (map (\<lambda>k. take (unat us) (drop (k * unat us) (combined_vector_m s)))
                      [0..<unat (count_m s)]) = combined_vector_m s"
proof -
  have len: "length (combined_vector_m s) = unat (count_m s) * unat us"
    using wf nz by (simp add: wellformed_nat)
  have "0 \<le> sint (count_m s)" using wf nz by (simp add: wellformed_def)
  then have n: "nat (sint (count_m s)) = unat (count_m s)"
    using sint_eq_unat [of "count_m s"] by simp
  show "map (\<lambda>k. get s (of_nat k)) [0..<nat (sint (count_m s))] =
           map Inr (map (\<lambda>k. take (unat us) (drop (k * unat us) (combined_vector_m s)))
                      [0..<unat (count_m s)])"
    unfolding n using get_of_nat [OF wf nz] by simp
  show "concat (map (\<lambda>k. take (unat us) (drop (k * unat us) (combined_vector_m s)))
                      [0..<unat (count_m s)]) = combined_vector_m s"
    using concat_blocks [of "unat (count_m s)" "unat us" "combined_vector_m s"] len by simp
qed

text \<open>
  Claim C2, as the code has it.  \<^verbatim>\<open>toEigen\<close> returns the storage as it is and
  \<^verbatim>\<open>size()\<close> is the row count of the storage, not the unit count, for every unit size.
  For a positive unit size the storage is the concatenation, in index order, of the
  units that \<^verbatim>\<open>get(0)\<close>, \<open>\<dots>\<close>, \<^verbatim>\<open>get(count() - 1)\<close> return.  For a unit size of three,
  appending \<open>[1, 2, 3]\<close> and then \<open>[4, 5, 6]\<close> to a default-constructed object gives
  \<^verbatim>\<open>toEigen\<close> \<open>= [1, 2, 3, 4, 5, 6]\<close>, \<^verbatim>\<open>size()\<close> \<open>= 6\<close>, \<^verbatim>\<open>get(0)\<close> \<open>= [1, 2, 3]\<close> and
  \<^verbatim>\<open>get(1)\<close> \<open>= [4, 5, 6]\<close>.
\<close>

theorem C2_flattening:
  "(reachable us nan s \<longrightarrow>
      toEigen s = combined_vector_m s \<and>
      size_rows s = rows (combined_vector_m s) \<and>
      unat (size_rows s) = length (toEigen s)) \<and>
   (reachable us nan s \<and> 0 < us \<longrightarrow>
      (\<exists>units. map (\<lambda>k. get s (of_nat k)) [0..<nat (sint (count s))] = map Inr units \<and>
         toEigen s = concat units)) \<and>
   NAryState_default 3 = Inr \<lparr>unit_size_m = 3, count_m = 0, combined_vector_m = ([] :: scalar list)\<rparr> \<and>
   append_unit j1 [Num 1, Num 2, Num 3] \<lparr>unit_size_m = 3, count_m = 0, combined_vector_m = []\<rparr> =
     (None, \<lparr>unit_size_m = 3, count_m = 1, combined_vector_m = [Num 1, Num 2, Num 3]\<rparr>) \<and>
   append_unit j2 [Num 4, Num 5, Num 6]
       \<lparr>unit_size_m = 3, count_m = 1, combined_vector_m = [Num 1, Num 2, Num 3]\<rparr> =
     (None, \<lparr>unit_size_m = 3, count_m = 2,
        combined_vector_m = [Num 1, Num 2, Num 3, Num 4, Num 5, Num 6]\<rparr>) \<and>
   toEigen \<lparr>unit_size_m = 3, count_m = 2,
        combined_vector_m = [Num 1, Num 2, Num 3, Num 4, Num 5, Num 6]\<rparr> =
     [Num 1, Num 2, Num 3, Num 4, Num 5, Num 6] \<and>
   size_rows \<lparr>unit_size_m = 3, count_m = 2,
        combined_vector_m = [Num 1, Num 2, Num 3, Num 4, Num 5, Num 6]\<rparr> = 6 \<and>
   get \<lparr>unit_size_m = 3, count_m = 2,
        combined_vector_m = [Num 1, Num 2, Num 3, Num 4, Num 5, Num 6]\<rparr> 0 = Inr [Num 1, Num 2, Num 3] \<and>
   get \<lparr>unit_size_m = 3, count_m = 2,
        combined_vector_m = [Num 1, Num 2, Num 3, Num 4, Num 5, Num 6]\<rparr> 1 = Inr [Num 4, Num 5, Num 6]"
proof -
  have storage: "toEigen s = combined_vector_m s \<and>
      size_rows s = rows (combined_vector_m s) \<and>
      unat (size_rows s) = length (toEigen s)"
    if r: "reachable us nan s"
  proof -
    have "wellformed us s" using r by (rule reachable_wellformed)
    then have ev: "eigen_vector (combined_vector_m s)" by (simp add: wellformed_def)
    show ?thesis using unat_rows [OF ev] by (simp add: size_rows_def toEigen_def)
  qed
  have units: "\<exists>units. map (\<lambda>k. get s (of_nat k)) [0..<nat (sint (count s))] = map Inr units \<and>
         toEigen s = concat units"
    if r: "reachable us nan s" and p: "0 < us"
  proof -
    have wf: "wellformed us s" using r by (rule reachable_wellformed)
    have nz: "us \<noteq> 0" using p by auto
    show ?thesis
      using units_concat [OF wf nz] unfolding count_def toEigen_def by metis
  qed
  have g1: "reachable us nan s \<longrightarrow>
      toEigen s = combined_vector_m s \<and>
      size_rows s = rows (combined_vector_m s) \<and>
      unat (size_rows s) = length (toEigen s)"
    by (rule impI, rule storage)
  have g2: "reachable us nan s \<and> 0 < us \<longrightarrow>
      (\<exists>units. map (\<lambda>k. get s (of_nat k)) [0..<nat (sint (count s))] = map Inr units \<and>
         toEigen s = concat units)"
    by (rule impI, elim conjE, rule units)
  have e1: "toEigen \<lparr>unit_size_m = 3, count_m = 2,
        combined_vector_m = [Num 1, Num 2, Num 3, Num 4, Num 5, Num 6]\<rparr> =
     [Num 1, Num 2, Num 3, Num 4, Num 5, Num 6]"
    by (simp add: toEigen_def)
  have e2: "size_rows \<lparr>unit_size_m = 3, count_m = 2,
        combined_vector_m = [Num 1, Num 2, Num 3, Num 4, Num 5, Num 6]\<rparr> = 6"
    by (simp add: size_rows_def rows_def)
  have e3: "get \<lparr>unit_size_m = 3, count_m = 2,
        combined_vector_m = [Num 1, Num 2, Num 3, Num 4, Num 5, Num 6]\<rparr> 0 = Inr [Num 1, Num 2, Num 3]"
    by (simp add: get_def block_def)
  have e4: "get \<lparr>unit_size_m = 3, count_m = 2,
        combined_vector_m = [Num 1, Num 2, Num 3, Num 4, Num 5, Num 6]\<rparr> 1 = Inr [Num 4, Num 5, Num 6]"
    by (simp add: get_def block_def)
  show ?thesis
    by (intro conjI) (rule g1 g2 example_default example_append_1 example_append_2 e1 e2 e3 e4)+
qed

theorem C2_flattening_witness:
  "reachable 3 NaN \<lparr>unit_size_m = 3, count_m = 2,
     combined_vector_m = [Num 1, Num 2, Num 3, Num 4, Num 5, Num 6]\<rparr> \<and>
   (0 :: size_t) < 3 \<and>
   unat (size_rows \<lparr>unit_size_m = 3, count_m = 2,
     combined_vector_m = [Num 1, Num 2, Num 3, Num 4, Num 5, Num 6]\<rparr>) = 6 \<and>
   map (\<lambda>k. get \<lparr>unit_size_m = 3, count_m = 2,
     combined_vector_m = [Num 1, Num 2, Num 3, Num 4, Num 5, Num 6]\<rparr> (of_nat k)) [0, 1] =
     map Inr [[Num 1, Num 2, Num 3], [Num 4, Num 5, Num 6]] \<and>
   toEigen \<lparr>unit_size_m = 3, count_m = 2,
     combined_vector_m = [Num 1, Num 2, Num 3, Num 4, Num 5, Num 6]\<rparr> =
     concat [[Num 1, Num 2, Num 3], [Num 4, Num 5, Num 6]]"
proof -
  have p: "(0 :: size_t) < 3" by simp
  have m: "map (\<lambda>k. get \<lparr>unit_size_m = 3, count_m = 2,
     combined_vector_m = [Num 1, Num 2, Num 3, Num 4, Num 5, Num 6]\<rparr> (of_nat k)) [0, 1] =
     map Inr [[Num 1, Num 2, Num 3], [Num 4, Num 5, Num 6]]"
    by (simp add: get_def block_def)
  show ?thesis
    using p m example_reachable_2
      C2_flattening [of 3 NaN "\<lparr>unit_size_m = 3, count_m = 2,
        combined_vector_m = [Num 1, Num 2, Num 3, Num 4, Num 5, Num 6]\<rparr>" NaN NaN]
    by (simp add: toEigen_def size_rows_def rows_def)
qed

lemma example_null_from:
  "NAryState_from 0 [Num 1, Num 2, Num 3] =
     Inr \<lparr>unit_size_m = 0, count_m = - 1, combined_vector_m = [Num 1, Num 2, Num 3]\<rparr>"
  by (simp add: NAryState_from_def unitCountFromRows_def)

lemma example_vector: "eigen_vector [Num 1, Num 2, Num 3]"
  by (simp add: eigen_vector_def)

lemma example_null_from_reachable:
  "reachable 0 NaN \<lparr>unit_size_m = 0, count_m = - 1, combined_vector_m = [Num 1, Num 2, Num 3]\<rparr>"
  by (rule r_from [OF example_vector example_null_from])

text \<open>
  For a null unit the storage need not be a concatenation of units: an object built
  from the flat vector \<open>[1, 2, 3]\<close> flattens to \<open>[1, 2, 3]\<close>, while its count is \<open>-1\<close> and
  \<^verbatim>\<open>get\<close> returns the empty unit at every index.
\<close>

theorem C2_flattening_counterexample:
  "reachable 0 NaN \<lparr>unit_size_m = 0, count_m = - 1, combined_vector_m = [Num 1, Num 2, Num 3]\<rparr> \<and>
   toEigen \<lparr>unit_size_m = 0, count_m = - 1, combined_vector_m = [Num 1, Num 2, Num 3]\<rparr> =
     [Num 1, Num 2, Num 3] \<and>
   sint (count \<lparr>unit_size_m = 0, count_m = - 1, combined_vector_m = [Num 1, Num 2, Num 3]\<rparr>) = - 1 \<and>
   get \<lparr>unit_size_m = 0, count_m = - 1, combined_vector_m = [Num 1, Num 2, Num 3]\<rparr> 0 = Inr [] \<and>
   get \<lparr>unit_size_m = 0, count_m = - 1, combined_vector_m = [Num 1, Num 2, Num 3]\<rparr> 1 = Inr [] \<and>
   get \<lparr>unit_size_m = 0, count_m = - 1, combined_vector_m = [Num 1, Num 2, Num 3]\<rparr> 2 = Inr [] \<and>
   toEigen \<lparr>unit_size_m = 0, count_m = - 1, combined_vector_m = [Num 1, Num 2, Num 3]\<rparr> \<noteq>
     concat [[], [], []]"
  using example_null_from_reachable
  by (simp add: toEigen_def count_def get_def block_def)

section \<open>Sized construction\<close>

lemma product_reading:
  fixes cnt us :: "64 word"
  assumes c: "0 \<le> sint cnt" and small: "sint cnt * uint us < 2 ^ 63"
  shows "unat cnt * unat us < 2 ^ 63"
    and "unat (cnt * us) = unat cnt * unat us"
    and "nat (sint cnt * uint us) = unat cnt * unat us"
proof -
  have e: "sint cnt * uint us = int (unat cnt * unat us)"
    using sint_eq_unat [OF c] by simp
  then show n: "nat (sint cnt * uint us) = unat cnt * unat us" by (simp only: nat_int)
  have "int (unat cnt * unat us) < int (2 ^ 63)" using small e by simp
  then show lt: "unat cnt * unat us < 2 ^ 63" by (simp only: of_nat_less_iff)
  then have "unat cnt * unat us < 2 ^ LENGTH(64)" by simp
  then show "unat (cnt * us) = unat cnt * unat us"
    using unat_mult_lem [of cnt us] by blast
qed

lemma product_div_mod:
  fixes cnt us :: "64 word"
  assumes "us \<noteq> 0" and "unat (cnt * us) = unat cnt * unat us"
  shows "(cnt * us) mod us = 0" and "(cnt * us) div us = cnt"
proof -
  have p: "0 < unat us" using assms(1) by (simp add: unat_gt_0)
  have "unat ((cnt * us) mod us) = 0" using assms(2) by (simp add: unat_mod)
  then show "(cnt * us) mod us = 0" by (simp add: unat_eq_0)
  have "unat ((cnt * us) div us) = unat cnt" using assms(2) p by (simp add: unat_div)
  then show "(cnt * us) div us = cnt" by (simp add: word_unat_eq_iff)
qed

text \<open>
  Claim C8, as the code has it.  Sized construction allocates \<^verbatim>\<open>rowsFromUnitCount(count)\<close>
  rows, each not-a-number, and stores \<^verbatim>\<open>unitCountFromRows(rowsFromUnitCount(count))\<close> as
  the count.  For a positive unit size and \<open>count \<ge> 0\<close> whose product with the unit size
  is below \<open>2 ^ 63\<close>, so that it is a row count of the library, the object has
  \<open>count() = count\<close> and \<open>size() = count * unit_size\<close> rows, all not-a-number.  For a unit
  size of zero the count is \<open>-1\<close> whatever was requested.
\<close>

theorem C8_sized_construction:
  "(NAryState_sized us nan cnt = Inr s \<longrightarrow>
      rowsFromUnitCount us cnt = Inr (size_rows s) \<and>
      unitCountFromRows us (size_rows s) = Inr (count s) \<and>
      toEigen s = replicate (unat (size_rows s)) nan \<and>
      unit_size_m s = us) \<and>
   (0 < us \<and> 0 \<le> sint cnt \<and> sint cnt * uint us < 2 ^ 63 \<longrightarrow>
      NAryState_sized us nan cnt =
        Inr \<lparr>unit_size_m = us, count_m = cnt,
             combined_vector_m = replicate (nat (sint cnt * uint us)) nan\<rparr> \<and>
      size_rows \<lparr>unit_size_m = us, count_m = cnt,
             combined_vector_m = replicate (nat (sint cnt * uint us)) nan\<rparr> = cnt * us \<and>
      int (unat (cnt * us)) = sint cnt * uint us) \<and>
   NAryState_sized 0 nan cnt = Inr \<lparr>unit_size_m = 0, count_m = - 1, combined_vector_m = []\<rparr>"
proof -
  have a: "rowsFromUnitCount us cnt = Inr (size_rows s) \<and>
      unitCountFromRows us (size_rows s) = Inr (count s) \<and>
      toEigen s = replicate (unat (size_rows s)) nan \<and>
      unit_size_m s = us"
    if "NAryState_sized us nan cnt = Inr s" for s
  proof -
    from that obtain r c v where r: "rowsFromUnitCount us cnt = Inr r"
      and c: "unitCountFromRows us r = Inr c" and v: "Constant r nan = Inr v"
      and s: "s = \<lparr>unit_size_m = us, count_m = c, combined_vector_m = v\<rparr>"
      by (rule sized_Inr)
    have "size_rows s = r" using Constant_Inr(3) [OF v] by (simp add: s size_rows_def)
    then show ?thesis
      using r c Constant_Inr(1) [OF v] by (simp add: s count_def toEigen_def)
  qed
  have b: "NAryState_sized us nan cnt =
        Inr \<lparr>unit_size_m = us, count_m = cnt,
             combined_vector_m = replicate (nat (sint cnt * uint us)) nan\<rparr> \<and>
      size_rows \<lparr>unit_size_m = us, count_m = cnt,
             combined_vector_m = replicate (nat (sint cnt * uint us)) nan\<rparr> = cnt * us \<and>
      int (unat (cnt * us)) = sint cnt * uint us"
    if p: "0 < us" and c: "0 \<le> sint cnt" and small: "sint cnt * uint us < 2 ^ 63"
  proof -
    have nz: "us \<noteq> 0" using p by auto
    note pr = product_reading [OF c small]
    note dm = product_div_mod [OF nz pr(2)]
    have r: "rowsFromUnitCount us cnt = Inr (cnt * us)"
      using c by (simp add: rowsFromUnitCount_def)
    have u: "unitCountFromRows us (cnt * us) = Inr cnt"
      using p dm by (simp add: unitCountFromRows_def)
    have "unat (cnt * us) < 2 ^ 63" using pr(1) pr(2) by simp
    then have "0 \<le> sint (cnt * us)" by (simp add: sint_nonneg_iff)
    then have k: "Constant (cnt * us) nan = Inr (replicate (nat (sint cnt * uint us)) nan)"
      using pr(2) pr(3) by (simp add: Constant_def)
    have i: "int (unat (cnt * us)) = sint cnt * uint us"
      using pr(2) pr(3) c by (metis int_nat_eq mult_nonneg_nonneg of_nat_0_le_iff sint_eq_unat uint_nat)
    have n: "NAryState_sized us nan cnt =
        Inr \<lparr>unit_size_m = us, count_m = cnt,
             combined_vector_m = replicate (nat (sint cnt * uint us)) nan\<rparr>"
      using r u k by (simp add: NAryState_sized_def)
    have "size_rows \<lparr>unit_size_m = us, count_m = cnt,
             combined_vector_m = replicate (nat (sint cnt * uint us)) nan\<rparr> = cnt * us"
      using a [OF n] r by simp
    then show ?thesis using n i by simp
  qed
  have z: "NAryState_sized 0 nan cnt = Inr \<lparr>unit_size_m = 0, count_m = - 1, combined_vector_m = []\<rparr>"
    by (simp add: NAryState_sized_def rowsFromUnitCount_def unitCountFromRows_def Constant_def)
  show ?thesis
    by (intro conjI impI) (use a b z in blast)+
qed

theorem C8_sized_construction_witness:
  "NAryState_sized 3 NaN 2 =
     Inr \<lparr>unit_size_m = 3, count_m = 2, combined_vector_m = [NaN, NaN, NaN, NaN, NaN, NaN]\<rparr> \<and>
   (0 :: size_t) < 3 \<and> 0 \<le> sint (2 :: ptrdiff_t) \<and> sint (2 :: ptrdiff_t) * uint (3 :: size_t) < 2 ^ 63 \<and>
   rowsFromUnitCount 3 2 = Inr (size_rows
     \<lparr>unit_size_m = 3, count_m = 2, combined_vector_m = [NaN, NaN, NaN, NaN, NaN, NaN]\<rparr>) \<and>
   unitCountFromRows 3 6 = Inr 2"
proof -
  have h: "(0 :: size_t) < 3 \<and> 0 \<le> sint (2 :: ptrdiff_t) \<and>
      sint (2 :: ptrdiff_t) * uint (3 :: size_t) < 2 ^ 63"
    by simp
  have six: "nat (sint (2 :: ptrdiff_t) * uint (3 :: size_t)) = 6" by simp
  have rep: "replicate 6 NaN = [NaN, NaN, NaN, NaN, NaN, NaN]"
    by (simp add: eval_nat_numeral)
  have n: "replicate (nat (sint (2 :: ptrdiff_t) * uint (3 :: size_t))) NaN =
      [NaN, NaN, NaN, NaN, NaN, NaN]"
    by (simp only: six rep)
  have sz: "size_rows \<lparr>unit_size_m = 3, count_m = 2,
      combined_vector_m = [NaN, NaN, NaN, NaN, NaN, NaN]\<rparr> = 6"
    by (simp add: size_rows_def rows_def)
  show ?thesis
    using h n sz
      C8_sized_construction [of 3 NaN 2
        "\<lparr>unit_size_m = 3, count_m = 2, combined_vector_m = [NaN, NaN, NaN, NaN, NaN, NaN]\<rparr>"]
    by (simp add: count_def)
qed

text \<open>
  Without the bound on the product the statement fails: \<^verbatim>\<open>count * us\<close> is computed in
  \<^verbatim>\<open>std::size_t\<close>, so for a unit size of four and a requested count of \<open>2 ^ 62\<close> the
  product wraps around to zero, and the object built is empty with \<open>count() = 0\<close>.
\<close>

theorem C8_sized_construction_counterexample:
  "(0 :: size_t) < 4 \<and> 0 \<le> sint (2 ^ 62 :: ptrdiff_t) \<and>
   NAryState_sized 4 NaN (2 ^ 62) = Inr \<lparr>unit_size_m = 4, count_m = 0, combined_vector_m = []\<rparr> \<and>
   count \<lparr>unit_size_m = 4, count_m = 0, combined_vector_m = ([] :: scalar list)\<rparr> \<noteq> 2 ^ 62"
  by (simp add: NAryState_sized_def rowsFromUnitCount_def unitCountFromRows_def Constant_def count_def)

end
